theory Spec2Isabelle
  imports Main
begin

section \<open>Python values used by the logger\<close>

text \<open>
  The model follows \<^verbatim>\<open>atemlogger7.py\<close>. Python's \<^verbatim>\<open>str\<close> is a \<open>string\<close>
  (code points 0..255 only, which covers every literal of the program), Python's
  unbounded \<^verbatim>\<open>int\<close> is \<open>int\<close>, and a variable that holds either a string or
  \<^verbatim>\<open>None\<close> is a \<open>string option\<close>. Exceptions are values of \<open>py_error\<close>.
\<close>

datatype py_error =
  AttributeError | ValueError | IndexError | OSError | UnicodeDecodeError | SwitcherError

datatype log_entry = LogWarning string | LogInfo string | LogError string py_error

subsection \<open>\<^verbatim>\<open>str.startswith\<close>, \<^verbatim>\<open>in\<close>, \<^verbatim>\<open>str.split\<close>, \<^verbatim>\<open>str.strip\<close>\<close>

fun startswith :: "string \<Rightarrow> string \<Rightarrow> bool" where
  "startswith s [] = True"
| "startswith [] (p # ps) = False"
| "startswith (c # cs) (p # ps) = (c = p \<and> startswith cs ps)"


text \<open>
  \<open>py_split sep s\<close> is \<^verbatim>\<open>s.split(sep)\<close> for a non-empty separator (every separator
  of the program is a non-empty literal; Python raises on an empty one): the text is
  scanned from the left, every occurrence of the separator ends a piece, and the scan
  goes on after the occurrence. \<open>cur\<close> holds the current piece, reversed.
\<close>

fun split_from :: "string \<Rightarrow> string \<Rightarrow> string \<Rightarrow> string list" where
  "split_from sep cur [] = [rev cur]"
| "split_from sep cur (c # cs) =
     (if startswith (c # cs) sep
      then rev cur # split_from sep [] (drop (length sep - 1) cs)
      else split_from sep (c # cur) cs)"

definition py_split :: "string \<Rightarrow> string \<Rightarrow> string list" where
  "py_split sep s = split_from sep [] s"



subsection \<open>\<^verbatim>\<open>int(text)\<close> and the format specification \<^verbatim>\<open>0w\<close>\<close>

definition is_digit :: "char \<Rightarrow> bool" where
  "is_digit c = (let n = (of_char c :: nat) in 48 \<le> n \<and> n \<le> 57)"

definition digit_val :: "char \<Rightarrow> nat" where
  "digit_val c = of_char c - 48"

text \<open>
  The interpreter's limit on the conversion between \<^verbatim>\<open>int\<close> and \<^verbatim>\<open>str\<close>
  (\<^verbatim>\<open>sys.get_int_max_str_digits()\<close>, which the program leaves at its default): a
  literal of more digits, and a number of more digits, raise \<^verbatim>\<open>ValueError\<close>.
\<close>

definition int_max_str_digits :: nat where
  "int_max_str_digits = 4300"

text \<open>
  The digits of a decimal literal, read after a first digit: a single underscore may
  stand between two digits, anything else is a \<^verbatim>\<open>ValueError\<close> (here \<open>None\<close>).
\<close>

fun after_digit :: "nat \<Rightarrow> string \<Rightarrow> nat option" where
  "after_digit acc [] = Some acc"
| "after_digit acc [c] = (if is_digit c then Some (10 * acc + digit_val c) else None)"
| "after_digit acc (c # d # ds) =
     (if is_digit c then after_digit (10 * acc + digit_val c) (d # ds)
      else if c = CHR ''_'' \<and> is_digit d then after_digit (10 * acc + digit_val d) ds
      else None)"

definition py_digits :: "string \<Rightarrow> nat option" where
  "py_digits s =
     (case s of [] \<Rightarrow> None
      | c # cs \<Rightarrow>
          if is_digit c \<and> length (filter is_digit s) \<le> int_max_str_digits
          then after_digit (digit_val c) cs else None)"

text \<open>
  The white space \<^verbatim>\<open>int()\<close> skips around a literal is not that of \<^verbatim>\<open>strip()\<close>:
  \<^verbatim>\<open>int()\<close> turns a white space character above 126 into a blank and then skips TAB..CR
  and the blank only. So NEL and the no-break space are skipped, FS..US are not.
\<close>

definition int_isspace :: "char \<Rightarrow> bool" where
  "int_isspace c =
     (let n = (of_char c :: nat)
      in (9 \<le> n \<and> n \<le> 13) \<or> n = 32 \<or> n = 133 \<or> n = 160)"

definition int_strip :: "string \<Rightarrow> string" where
  "int_strip s = rev (dropWhile int_isspace (rev (dropWhile int_isspace s)))"

text \<open>
  \<^verbatim>\<open>int(s)\<close> in base 10: white space around the literal is dropped, then an optional
  sign, then the digits. \<open>None\<close> stands for the \<^verbatim>\<open>ValueError\<close>.
\<close>

definition py_int :: "string \<Rightarrow> int option" where
  "py_int s =
     (case int_strip s of
        [] \<Rightarrow> None
      | c # cs \<Rightarrow>
          if c = CHR ''-'' then map_option (\<lambda>n. - int n) (py_digits cs)
          else if c = CHR ''+'' then map_option int (py_digits cs)
          else map_option int (py_digits (c # cs)))"

definition digit_char :: "nat \<Rightarrow> char" where
  "digit_char d = char_of (48 + d)"

fun dec_nat :: "nat \<Rightarrow> string" where
  "dec_nat n = (if n < 10 then [digit_char n] else dec_nat (n div 10) @ [digit_char (n mod 10)])"

declare dec_nat.simps [simp del]

definition zfill :: "nat \<Rightarrow> string \<Rightarrow> string" where
  "zfill w s = replicate (w - length s) CHR ''0'' @ s"

text \<open>
  \<open>py_format_int w n\<close> is \<^verbatim>\<open>f"{n:0w}"\<close>: the decimal digits, padded with zeros to
  the width \<open>w\<close>; the sign of a negative number is part of the width and stays in front.
  A number of more than \<open>int_max_str_digits\<close> digits raises \<^verbatim>\<open>ValueError\<close>.
\<close>

definition py_format_int :: "nat \<Rightarrow> int \<Rightarrow> py_error + string" where
  "py_format_int w n =
     (let ds = dec_nat (nat \<bar>n\<bar>)
      in if length ds > int_max_str_digits then Inl ValueError
         else Inr (if n < 0 then CHR ''-'' # zfill (w - 1) ds else zfill w ds))"

text \<open>\<^verbatim>\<open>f"{x}"\<close> of a value that is a string or \<^verbatim>\<open>None\<close>.\<close>

definition py_str :: "string option \<Rightarrow> string" where
  "py_str v = (case v of None \<Rightarrow> ''None'' | Some s \<Rightarrow> s)"

text \<open>Python's truth value of a string or \<^verbatim>\<open>None\<close>: \<^verbatim>\<open>None\<close> and \<^verbatim>\<open>""\<close> are false.\<close>

definition truthy :: "string option \<Rightarrow> bool" where
  "truthy v = (case v of None \<Rightarrow> False | Some s \<Rightarrow> s \<noteq> [])"

section \<open>Timecode arithmetic: \<^verbatim>\<open>adjust_timecode\<close>\<close>

type_synonym fields = "int \<times> int \<times> int \<times> int"

text \<open>
  Line 46: \<^verbatim>\<open>hours, minutes, seconds, frames = map(int, timecode.split(':'))\<close>.
  A piece that is no integer and a number of pieces other than four both raise
  \<^verbatim>\<open>ValueError\<close>.
\<close>

definition parse_timecode :: "string \<Rightarrow> py_error + fields" where
  "parse_timecode tc =
     (case map py_int (py_split '':'' tc) of
        [Some hours, Some minutes, Some seconds, Some frames] \<Rightarrow>
          Inr (hours, minutes, seconds, frames)
      | _ \<Rightarrow> Inl ValueError)"

text \<open>Lines 47 to 62: the frames are added, then each field carries at most once.\<close>

definition carry :: "fields \<Rightarrow> int \<Rightarrow> fields" where
  "carry t compensation_frames =
     (case t of (hours, minutes, seconds, frames) \<Rightarrow>
        let frames = frames + compensation_frames;
            (frames, seconds) =
              (if frames \<ge> 25 then (frames - 25, seconds + 1) else (frames, seconds));
            (seconds, minutes) =
              (if seconds \<ge> 60 then (seconds - 60, minutes + 1) else (seconds, minutes));
            (minutes, hours) =
              (if minutes \<ge> 60 then (minutes - 60, hours + 1) else (minutes, hours))
        in (hours, minutes, seconds, frames))"

text \<open>Line 65: \<^verbatim>\<open>f"{hours:02}:{minutes:02}:{seconds:02}:{frames:02}"\<close>.\<close>

definition format_timecode :: "fields \<Rightarrow> py_error + string" where
  "format_timecode t =
     (case t of (hours, minutes, seconds, frames) \<Rightarrow>
        (case (py_format_int 2 hours, py_format_int 2 minutes,
               py_format_int 2 seconds, py_format_int 2 frames) of
           (Inr h, Inr m, Inr s, Inr f) \<Rightarrow> Inr (h @ '':'' @ m @ '':'' @ s @ '':'' @ f)
         | _ \<Rightarrow> Inl ValueError))"

text \<open>
  The body of the \<^verbatim>\<open>try\<close> block. \<^verbatim>\<open>None.split\<close> raises \<^verbatim>\<open>AttributeError\<close>,
  \<^verbatim>\<open>int()\<close> and the formatting raise \<^verbatim>\<open>ValueError\<close>.
\<close>

definition adjust_try :: "string option \<Rightarrow> int \<Rightarrow> py_error + string" where
  "adjust_try timecode compensation_frames =
     (case timecode of
        None \<Rightarrow> Inl AttributeError
      | Some tc \<Rightarrow>
          (case parse_timecode tc of
             Inl e \<Rightarrow> Inl e
           | Inr t \<Rightarrow> format_timecode (carry t compensation_frames)))"

text \<open>
  \<^verbatim>\<open>adjust_timecode\<close> with its \<^verbatim>\<open>except Exception\<close>: the result and what it logs.
\<close>

definition adjust_timecode :: "string option \<Rightarrow> int \<Rightarrow> string option \<times> log_entry list" where
  "adjust_timecode timecode compensation_frames =
     (case adjust_try timecode compensation_frames of
        Inr s \<Rightarrow> (Some s, [])
      | Inl e \<Rightarrow> (timecode, [LogError ''Error while adjusting the timecode'' e]))"

text \<open>
  The rule of the specification, in its words: the delta is added to the frames, and
  the overflow is carried into the seconds, the minutes and the hours, with the frame
  rate as the modulus of the frames and 60 as the modulus of seconds and minutes.
\<close>

definition spec_adjust :: "fields \<Rightarrow> int \<Rightarrow> int \<Rightarrow> fields" where
  "spec_adjust t frame_delta frame_rate =
     (case t of (hours, minutes, seconds, frames) \<Rightarrow>
        let f = frames + frame_delta;
            s = seconds + f div frame_rate;
            m = minutes + s div 60
        in (hours + m div 60, m mod 60, s mod 60, f mod frame_rate))"

text \<open>The invariant of a timecode in the data model, at the frame rate \<open>r\<close>.\<close>

definition valid_fields :: "int \<Rightarrow> fields \<Rightarrow> bool" where
  "valid_fields r t =
     (case t of (hours, minutes, seconds, frames) \<Rightarrow>
        0 \<le> hours \<and> 0 \<le> minutes \<and> minutes < 60 \<and> 0 \<le> seconds \<and> seconds < 60 \<and>
        0 \<le> frames \<and> frames < r)"

text \<open>The hours of a timecode.\<close>

definition hours_of :: "fields \<Rightarrow> int" where
  "hours_of t = (case t of (hours, minutes, seconds, frames) \<Rightarrow> hours)"

text \<open>The number a string of decimal digits denotes, continuing from \<open>acc\<close>.\<close>

definition digits_value :: "nat \<Rightarrow> string \<Rightarrow> nat" where
  "digits_value acc s = foldl (\<lambda>a c. 10 * a + digit_val c) acc s"

section \<open>The EDL serializer: \<^verbatim>\<open>generate_edl\<close>\<close>

text \<open>
  A clip is the dictionary the monitor appends: \<^verbatim>\<open>start\<close>, \<^verbatim>\<open>end\<close> and
  \<^verbatim>\<open>src\<close>. The timecodes are what the deck query returned, a string or \<^verbatim>\<open>None\<close>;
  the source is the value read from the switcher, of a type \<open>'i\<close> the program never
  looks into, turned into text by \<^verbatim>\<open>str\<close> (the parameter \<open>str_of\<close> below).
\<close>

record 'i clip =
  clip_start :: "string option"
  clip_end :: "string option"
  clip_src :: 'i

text \<open>
  What the serializer can change outside its arguments: the files (a map from paths to
  contents) and the log. \<^verbatim>\<open>open(file_path, 'w')\<close> raises on a path for which
  \<open>can_open\<close> is false; a write to an open file succeeds.
\<close>

record world =
  files :: "string \<rightharpoonup> string"
  can_open :: "string \<Rightarrow> bool"
  logs :: "log_entry list"

definition nl :: string where
  "nl = [CHR 0x0A]"

text \<open>
  Lines 35 to 37: the two \<^verbatim>\<open>write\<close> calls for the clip with index \<open>i\<close>, after the
  formatting of the identifier, which raises for a number of too many digits.
\<close>

definition clip_lines ::
  "nat \<Rightarrow> string option \<Rightarrow> string option \<Rightarrow> string \<Rightarrow> py_error + string list" where
  "clip_lines i start_timecode end_timecode src =
     (case py_format_int 4 (int i + 1) of
        Inl e \<Rightarrow> Inl e
      | Inr clip_id \<Rightarrow>
          Inr [clip_id @ ''  AX    V     C   '' @ py_str start_timecode @ '' '' @
                 py_str end_timecode @ '' '' @ py_str start_timecode @ '' '' @
                 py_str end_timecode @ nl,
               ''* FROM CLIP NAME: '' @ src @ nl])"

text \<open>
  Lines 25 to 37, the loop over \<^verbatim>\<open>enumerate(clips)\<close>: the timecodes of a clip are read
  into local variables, adjusted when the compensation is positive, and written. The
  state of the loop is what has been written and what \<^verbatim>\<open>adjust_timecode\<close> has logged;
  an exception ends the loop.
\<close>

fun write_clips ::
  "('i \<Rightarrow> string) \<Rightarrow> int \<Rightarrow> (nat \<times> 'i clip) list \<Rightarrow> string list \<times> log_entry list \<Rightarrow>
   py_error + string list \<times> log_entry list" where
  "write_clips str_of compensation_frames [] acc = Inr acc"
| "write_clips str_of compensation_frames ((i, clip) # rest) (written, logged) =
     (let start_timecode = clip_start clip;
          end_timecode = clip_end clip;
          (start_timecode, l1) =
            (if compensation_frames > 0 then adjust_timecode start_timecode compensation_frames
             else (start_timecode, []));
          (end_timecode, l2) =
            (if compensation_frames > 0 then adjust_timecode end_timecode compensation_frames
             else (end_timecode, []))
      in case clip_lines i start_timecode end_timecode (str_of (clip_src clip)) of
           Inl e \<Rightarrow> Inl e
         | Inr lines \<Rightarrow>
             write_clips str_of compensation_frames rest (written @ lines, logged @ l1 @ l2))"

text \<open>
  \<^verbatim>\<open>generate_edl\<close>. Python passes the list of clips by reference, so the result holds
  the list as it is after the call, next to the new world. \<open>Inl\<close> is an exception the
  function does not catch (that of \<^verbatim>\<open>open\<close>, or that of formatting an identifier);
  the world after it is not followed.
\<close>

definition generate_edl ::
  "('i \<Rightarrow> string) \<Rightarrow> 'i clip list \<Rightarrow> string \<Rightarrow> int \<Rightarrow> world \<Rightarrow> py_error + ('i clip list \<times> world)" where
  "generate_edl str_of clips file_path compensation_frames w =
     (if clips = []
      then Inr (clips, w\<lparr>logs := logs w @ [LogWarning ''No cuts detected, no data to save in the EDL.'']\<rparr>)
      else if \<not> can_open w file_path then Inl OSError
      else case write_clips str_of compensation_frames (enumerate 0 clips)
                  ([''TITLE: ATEM Program Output'' @ nl, ''FCM: NON-DROP FRAME'' @ nl], []) of
             Inl e \<Rightarrow> Inl e
           | Inr (written, logged) \<Rightarrow>
               Inr (clips,
                 w\<lparr>files := (files w)(file_path \<mapsto> concat written),
                   logs := logs w @ logged @
                           [LogInfo (''EDL file successfully generated: '' @ file_path)]\<rparr>))"




section \<open>The deck client: \<^verbatim>\<open>get_timecode_from_hyperdeck\<close>\<close>










section \<open>The monitor loop of \<^verbatim>\<open>ATEMMonitorThread.run\<close>\<close>

text \<open>
  One round of the loop sees the outcome of reading the program input (line 158; the
  read raises, or yields a value) and the value the deck query returned (line 163).
  The signals emitted are collected in \<open>events\<close>; emitting is taken not to raise. The
  number of rounds is the number of times the stop flag was found clear.
\<close>

datatype 'i sample = ReadFailed | Sampled 'i "string option"

datatype event =
  Update_input string
| Update_timecode string
| Update_log string string "string option"

record 'i monitor =
  last_program_input :: "'i option"
  last_timecode :: "string option"
  timecode :: "string option"
  clips :: "'i clip list"
  events :: "event list"
  monitor_logs :: "log_entry list"

text \<open>Lines 168 to 174: the clip of the input that was active until now, if any.\<close>

definition close_clip :: "('i \<Rightarrow> string) \<Rightarrow> string option \<Rightarrow> 'i monitor \<Rightarrow> 'i monitor" where
  "close_clip str_of tc st =
     (case (last_program_input st, last_timecode st) of
        (Some p, Some lt) \<Rightarrow>
          if lt \<noteq> []
          then st\<lparr>clips := clips st @ [\<lparr>clip_start = Some lt, clip_end = tc, clip_src = p\<rparr>],
                 events := events st @ [Update_log (str_of p) lt tc]\<rparr>
          else st
      | _ \<Rightarrow> st)"

text \<open>Lines 157 to 181, one round of the loop.\<close>

definition iteration :: "('i \<Rightarrow> string) \<Rightarrow> 'i sample \<Rightarrow> 'i monitor \<Rightarrow> 'i monitor" where
  "iteration str_of smp st =
     (case smp of
        ReadFailed \<Rightarrow>
          st\<lparr>monitor_logs := monitor_logs st @
                [LogError ''Error retrieving program input'' SwitcherError]\<rparr>
      | Sampled program_input tc \<Rightarrow>
          let program_input_str = str_of program_input;
              st = st\<lparr>events := events st @ [Update_input program_input_str]\<rparr>;
              st = st\<lparr>timecode := tc\<rparr>;
              st = (case tc of
                      Some v \<Rightarrow> if v \<noteq> [] then st\<lparr>events := events st @ [Update_timecode v]\<rparr> else st
                    | None \<Rightarrow> st)
          in if Some program_input \<noteq> last_program_input st
             then (close_clip str_of tc st)
                    \<lparr>last_program_input := Some program_input,
                     last_timecode := tc,
                     monitor_logs := monitor_logs st @
                       [LogInfo (''Program input at '' @ py_str tc @ '': '' @ program_input_str)]\<rparr>
             else st)"

text \<open>Lines 183 to 188: the trailing clip, once the loop has ended.\<close>

definition finish :: "'i monitor \<Rightarrow> 'i monitor" where
  "finish st =
     (case (last_program_input st, last_timecode st) of
        (Some p, Some lt) \<Rightarrow>
          if lt \<noteq> []
          then st\<lparr>clips := clips st @ [\<lparr>clip_start = Some lt, clip_end = timecode st, clip_src = p\<rparr>]\<rparr>
          else st
      | _ \<Rightarrow> st)"

text \<open>Lines 151 to 153, and \<^verbatim>\<open>timecode\<close>, which no round has assigned yet.\<close>

definition init :: "'i monitor" where
  "init = \<lparr>last_program_input = None, last_timecode = None, timecode = None, clips = [],
           events = [], monitor_logs = []\<rparr>"

definition run_loop :: "('i \<Rightarrow> string) \<Rightarrow> 'i sample list \<Rightarrow> 'i monitor \<Rightarrow> 'i monitor" where
  "run_loop str_of samples st = foldl (\<lambda>st smp. iteration str_of smp st) st samples"


text \<open>A world for concrete runs: no file yet, every path but the empty one can be opened.\<close>

definition w0 :: world where
  "w0 = \<lparr>files = Map.empty, can_open = (\<lambda>p. p \<noteq> []), logs = []\<rparr>"



text \<open>The state after a first round that saw the input \<^verbatim>\<open>A\<close> at \<^verbatim>\<open>00:00:00:00\<close>.\<close>

definition st_a :: "string monitor" where
  "st_a = iteration (\<lambda>s. s) (Sampled ''A'' (Some ''00:00:00:00'')) init"








section \<open>Properties of the timecode arithmetic\<close>

text \<open>The facts that evaluate the functions on a concrete timecode.\<close>

lemma digit_char_values:
  "digit_char 0 = CHR ''0''" "digit_char 1 = CHR ''1''" "digit_char 2 = CHR ''2''"
  "digit_char 3 = CHR ''3''" "digit_char 4 = CHR ''4''" "digit_char 5 = CHR ''5''"
  "digit_char 6 = CHR ''6''" "digit_char 7 = CHR ''7''" "digit_char 8 = CHR ''8''"
  "digit_char 9 = CHR ''9''" "digit_char (Suc 0) = CHR ''1''"
  by code_simp+

lemma replicate_small:
  "replicate 1 x = [x]" "replicate 2 x = [x, x]" "replicate 3 x = [x, x, x]"
  by (simp_all add: numeral_2_eq_2 numeral_3_eq_3)

lemmas tc_eval =
  adjust_timecode_def adjust_try_def parse_timecode_def py_split_def py_int_def
  int_strip_def int_isspace_def py_digits_def is_digit_def digit_val_def carry_def
  format_timecode_def py_format_int_def dec_nat.simps zfill_def digit_char_values
  replicate_small int_max_str_digits_def spec_adjust_def Let_def


lemma adjust_examples:
  "fst (adjust_timecode (Some ''00:00:00:24'') 1) = Some ''00:00:01:00''"
  "fst (adjust_timecode (Some ''00:00:59:24'') 1) = Some ''00:01:00:00''"
  "fst (adjust_timecode (Some ''00:59:59:24'') 1) = Some ''01:00:00:00''"
  by (simp_all add: tc_eval)

lemma adjust_timecode_formatted:
  "parse_timecode tc = Inr t \<Longrightarrow> format_timecode (carry t d) = Inr s \<Longrightarrow>
   adjust_timecode (Some tc) d = (Some s, [])"
  by (simp add: adjust_timecode_def adjust_try_def)

lemma adjust_timecode_not_formatted:
  "parse_timecode tc = Inr t \<Longrightarrow> format_timecode (carry t d) = Inl e \<Longrightarrow>
   adjust_timecode (Some tc) d = (Some tc, [LogError ''Error while adjusting the timecode'' e])"
  by (simp add: adjust_timecode_def adjust_try_def)

text \<open>
  Claim C1 at the input \<^verbatim>\<open>00:00:00:00\<close> with 50 frames: the code returns
  \<^verbatim>\<open>00:00:01:25\<close>, with a frames field that is not below the frame rate, where adding
  50 frames and carrying with modulus 25 gives \<^verbatim>\<open>00:00:02:00\<close>. Each field carries at
  most once (lines 50 to 62).
\<close>

theorem adjust_timecode_fifty_frames:
  "fst (adjust_timecode (Some ''00:00:00:00'') 50) = Some ''00:00:01:25''
   \<and> format_timecode (spec_adjust (0, 0, 0, 0) 50 25) = Inr ''00:00:02:00''"
  by (simp add: tc_eval)

text \<open>
  Claim C7: when the body of \<^verbatim>\<open>adjust_timecode\<close> raises, for any input (a string or
  \<^verbatim>\<open>None\<close>) and any compensation, the function returns the timecode it was given,
  unmodified, and logs the error.
\<close>

theorem adjust_timecode_error_returns_original:
  assumes "adjust_try tc compensation_frames = Inl e"
  shows "adjust_timecode tc compensation_frames =
           (tc, [LogError ''Error while adjusting the timecode'' e])"
  using assms by (simp add: adjust_timecode_def)

lemma adjust_try_examples:
  "adjust_try (Some ''12:34:xx:00'') 2 = Inl ValueError"
  "adjust_try (Some (''00:00:00:'' @ [CHR 0x1C] @ ''05'')) 1 = Inl ValueError"
  "adjust_try (Some ''00:00:05'') 2 = Inl ValueError"
  "adjust_try None 2 = Inl AttributeError"
  by (simp_all add: tc_eval)

theorem adjust_timecode_error_returns_original_witness:
  "adjust_try (Some ''12:34:xx:00'') 2 = Inl ValueError \<and>
   adjust_timecode (Some ''12:34:xx:00'') 2 =
     (Some ''12:34:xx:00'', [LogError ''Error while adjusting the timecode'' ValueError])"
  using adjust_timecode_error_returns_original [OF adjust_try_examples(1)] adjust_try_examples(1)
  by simp

text \<open>
  The errors of the body: the input \<^verbatim>\<open>None\<close>, a number of fields other than four, a
  field that \<^verbatim>\<open>int()\<close> refuses, and an adjusted field of too many digits.
\<close>

lemma adjust_try_error_cases:
  "adjust_try x d = Inl e \<longleftrightarrow>
     (x = None \<and> e = AttributeError)
     \<or> (\<exists>tc. x = Some tc \<and> parse_timecode tc = Inl e)
     \<or> (\<exists>tc t. x = Some tc \<and> parse_timecode tc = Inr t \<and> format_timecode (carry t d) = Inl e)"
  by (auto simp: adjust_try_def split: option.splits sum.splits)

section \<open>Printing and reading decimal numbers\<close>

lemma is_digit_digit_char: "d < 10 \<Longrightarrow> is_digit (digit_char d)"
  by (simp add: is_digit_def digit_char_def)

lemma digit_val_digit_char: "d < 10 \<Longrightarrow> digit_val (digit_char d) = d"
  by (simp add: digit_val_def digit_char_def)

lemma is_digit_zero: "is_digit CHR ''0''" and digit_val_zero: "digit_val CHR ''0'' = 0"
  by (simp_all add: is_digit_def digit_val_def)

lemma after_digit_all_digits:
  "\<forall>c \<in> set s. is_digit c \<Longrightarrow> after_digit acc s = Some (digits_value acc s)"
  by (induction acc s rule: after_digit.induct) (simp_all add: digits_value_def)

lemma py_digits_all_digits:
  assumes "s \<noteq> []" and "\<forall>c \<in> set s. is_digit c" and "length s \<le> int_max_str_digits"
  shows "py_digits s = Some (digits_value 0 s)"
proof (cases s)
  case Nil
  with assms show ?thesis by simp
next
  case (Cons c cs)
  with assms have d: "is_digit c" "\<forall>c \<in> set cs. is_digit c" by simp_all
  from assms(2) have "filter is_digit s = s" by (simp add: filter_id_conv)
  with assms(3) have "length (filter is_digit s) \<le> int_max_str_digits" by simp
  with d show ?thesis
    using after_digit_all_digits [of cs "digit_val c"]
    by (simp add: py_digits_def Cons digits_value_def)
qed

lemma dec_nat_digits: "\<forall>c \<in> set (dec_nat n). is_digit c"
proof (induction n rule: dec_nat.induct)
  case (1 n)
  show ?case
  proof (cases "n < 10")
    case True
    then show ?thesis by (simp add: dec_nat.simps [of n] is_digit_digit_char)
  next
    case False
    with 1 show ?thesis
      by (simp add: dec_nat.simps [of n] is_digit_digit_char)
  qed
qed

lemma dec_nat_nonempty: "dec_nat n \<noteq> []"
  by (subst dec_nat.simps) simp

lemma digits_value_dec_nat: "digits_value 0 (dec_nat n) = n"
proof (induction n rule: dec_nat.induct)
  case (1 n)
  show ?case
  proof (cases "n < 10")
    case True
    then show ?thesis
      by (simp add: dec_nat.simps [of n] digits_value_def digit_val_digit_char)
  next
    case False
    with 1 have "digits_value 0 (dec_nat (n div 10)) = n div 10" by simp
    with False show ?thesis
      by (simp add: dec_nat.simps [of n] digits_value_def digit_val_digit_char)
  qed
qed

lemma digits_value_zeros: "digits_value 0 (replicate k CHR ''0'' @ s) = digits_value 0 s"
  by (induction k) (simp_all add: digits_value_def digit_val_zero)

lemma zfill_digits: "\<forall>c \<in> set s. is_digit c \<Longrightarrow> \<forall>c \<in> set (zfill w s). is_digit c"
  by (auto simp: zfill_def is_digit_zero)

lemma zfill_nonempty: "s \<noteq> [] \<Longrightarrow> zfill w s \<noteq> []"
  by (simp add: zfill_def)

lemma length_zfill: "length (zfill w s) = max w (length s)"
  by (simp add: zfill_def)

lemma py_digits_zfill_dec_nat:
  assumes "w \<le> int_max_str_digits" and "length (dec_nat n) \<le> int_max_str_digits"
  shows "py_digits (zfill w (dec_nat n)) = Some n"
proof -
  have "py_digits (zfill w (dec_nat n)) = Some (digits_value 0 (zfill w (dec_nat n)))"
    using zfill_digits [OF dec_nat_digits, of w n] assms
    by (intro py_digits_all_digits) (simp_all add: zfill_nonempty dec_nat_nonempty length_zfill)
  then show ?thesis
    by (simp add: zfill_def digits_value_zeros digits_value_dec_nat)
qed

lemma digit_not_int_space: "is_digit c \<Longrightarrow> \<not> int_isspace c"
  by (simp add: is_digit_def int_isspace_def Let_def)

lemma minus_not_int_space: "\<not> int_isspace CHR ''-''"
  by (simp add: int_isspace_def)

lemma int_strip_id:
  assumes "s \<noteq> []" and "\<not> int_isspace (hd s)" and "\<not> int_isspace (last s)"
  shows "int_strip s = s"
proof -
  from assms have "dropWhile int_isspace s = s" by (cases s) simp_all
  moreover from assms have "dropWhile int_isspace (rev s) = rev s"
    by (cases "rev s") (simp_all add: last_rev [symmetric] hd_rev)
  ultimately show ?thesis by (simp add: int_strip_def)
qed

lemma hd_zfill_dec_nat_digit: "is_digit (hd (zfill w (dec_nat n)))"
  using zfill_digits [OF dec_nat_digits, of w n] zfill_nonempty [OF dec_nat_nonempty, of w n]
  by (cases "zfill w (dec_nat n)") simp_all

lemma last_zfill_dec_nat_digit: "is_digit (last (zfill w (dec_nat n)))"
  using zfill_digits [OF dec_nat_digits, of w n] zfill_nonempty [OF dec_nat_nonempty, of w n]
  by simp

text \<open>What the formatting gives, when it does not raise.\<close>

lemma py_format_int_Inr:
  assumes "py_format_int w n = Inr s"
  shows "length (dec_nat (nat \<bar>n\<bar>)) \<le> int_max_str_digits"
    and "s = (if n < 0 then CHR ''-'' # zfill (w - 1) (dec_nat (nat \<bar>n\<bar>))
              else zfill w (dec_nat (nat \<bar>n\<bar>)))"
  using assms by (auto simp: py_format_int_def Let_def split: if_splits)

text \<open>Reading a formatted number gives the number back.\<close>

lemma py_int_format:
  assumes "py_format_int w n = Inr s" and "w \<le> int_max_str_digits"
  shows "py_int s = Some n"
proof (cases "n < 0")
  case True
  let ?z = "zfill (w - 1) (dec_nat (nat \<bar>n\<bar>))"
  from py_format_int_Inr [OF assms(1)] True
  have len: "length (dec_nat (nat \<bar>n\<bar>)) \<le> int_max_str_digits" and s: "s = CHR ''-'' # ?z"
    by simp_all
  have ne: "?z \<noteq> []" by (simp add: zfill_nonempty dec_nat_nonempty)
  have "int_strip (CHR ''-'' # ?z) = CHR ''-'' # ?z"
    using ne last_zfill_dec_nat_digit [of "w - 1" "nat \<bar>n\<bar>"]
    by (intro int_strip_id) (simp_all add: minus_not_int_space digit_not_int_space)
  moreover have "py_digits ?z = Some (nat \<bar>n\<bar>)"
    using assms(2) len by (intro py_digits_zfill_dec_nat) simp_all
  ultimately show ?thesis using True s by (simp add: py_int_def)
next
  case False
  let ?z = "zfill w (dec_nat (nat \<bar>n\<bar>))"
  from py_format_int_Inr [OF assms(1)] False
  have len: "length (dec_nat (nat \<bar>n\<bar>)) \<le> int_max_str_digits" and s: "s = ?z"
    by simp_all
  have ne: "?z \<noteq> []" by (simp add: zfill_nonempty dec_nat_nonempty)
  have st: "int_strip ?z = ?z"
    using ne hd_zfill_dec_nat_digit [of w "nat \<bar>n\<bar>"] last_zfill_dec_nat_digit [of w "nat \<bar>n\<bar>"]
    by (intro int_strip_id) (simp_all add: digit_not_int_space)
  obtain c cs where z: "?z = c # cs" using ne by (cases ?z) auto
  with hd_zfill_dec_nat_digit [of w "nat \<bar>n\<bar>"] have dc: "is_digit c" by simp
  then have "c \<noteq> CHR ''-''" "c \<noteq> CHR ''+''" by (auto simp: is_digit_def)
  moreover have "py_digits ?z = Some (nat \<bar>n\<bar>)"
    using assms(2) len by (intro py_digits_zfill_dec_nat) simp_all
  ultimately show ?thesis using False st z s by (simp add: py_int_def)
qed

lemma colon_not_in_format:
  assumes "py_format_int w n = Inr s"
  shows "CHR '':'' \<notin> set s"
proof -
  have "\<not> is_digit CHR '':''" by (simp add: is_digit_def)
  then have "CHR '':'' \<notin> set (zfill k (dec_nat m))" for k m
    using zfill_digits [OF dec_nat_digits, of k m] by blast
  with py_format_int_Inr(2) [OF assms] show ?thesis by simp
qed

lemma split_from_colon_last:
  "CHR '':'' \<notin> set a \<Longrightarrow> split_from '':'' cur a = [rev cur @ a]"
  by (induction a arbitrary: cur) auto

lemma split_from_colon_piece:
  "CHR '':'' \<notin> set a \<Longrightarrow>
   split_from '':'' cur (a @ CHR '':'' # rest) = (rev cur @ a) # split_from '':'' [] rest"
  by (induction a arbitrary: cur) auto

lemma format_timecode_Inr:
  assumes "format_timecode (h, m, s, f) = Inr out"
  obtains a b c d where "py_format_int 2 h = Inr a" "py_format_int 2 m = Inr b"
    "py_format_int 2 s = Inr c" "py_format_int 2 f = Inr d"
    "out = a @ '':'' @ b @ '':'' @ c @ '':'' @ d"
  using assms by (auto simp: format_timecode_def split: sum.splits)

lemma two_le_max: "2 \<le> int_max_str_digits"
  by (simp add: int_max_str_digits_def)

lemma parse_format_timecode:
  assumes "format_timecode t = Inr out"
  shows "parse_timecode out = Inr t"
proof (cases t)
  case (fields h m s f)
  with assms obtain a b c d where p: "py_format_int 2 h = Inr a" "py_format_int 2 m = Inr b"
    "py_format_int 2 s = Inr c" "py_format_int 2 f = Inr d"
    and out: "out = a @ '':'' @ b @ '':'' @ c @ '':'' @ d"
    by (auto elim: format_timecode_Inr)
  from p have nc: "CHR '':'' \<notin> set a" "CHR '':'' \<notin> set b" "CHR '':'' \<notin> set c" "CHR '':'' \<notin> set d"
    by (simp_all add: colon_not_in_format)
  then have "py_split '':'' out = [a, b, c, d]"
    by (simp add: out py_split_def split_from_colon_piece split_from_colon_last)
  moreover from p have "py_int a = Some h" "py_int b = Some m" "py_int c = Some s" "py_int d = Some f"
    by (simp_all add: py_int_format two_le_max)
  ultimately show ?thesis by (simp add: parse_timecode_def fields)
qed

text \<open>A number that was read has few enough digits to be printed.\<close>

lemma digit_val_le: "is_digit c \<Longrightarrow> digit_val c \<le> 9"
  unfolding is_digit_def digit_val_def Let_def by linarith

lemma after_digit_bound:
  "after_digit acc s = Some v \<Longrightarrow> v < (acc + 1) * 10 ^ length (filter is_digit s)"
proof (induction acc s arbitrary: v rule: after_digit.induct)
  case (1 acc)
  then show ?case by simp
next
  case (2 acc c)
  then have "is_digit c" and v: "v = 10 * acc + digit_val c" by (simp_all split: if_splits)
  with digit_val_le [of c] show ?case by simp
next
  case (3 acc c d ds)
  show ?case
  proof (cases "is_digit c")
    case True
    define k where "k = length (filter is_digit (d # ds))"
    have fl: "length (filter is_digit (c # d # ds)) = Suc k"
      using True by (simp add: k_def)
    from "3.prems" True have a: "after_digit (10 * acc + digit_val c) (d # ds) = Some v"
      by (simp del: filter.simps)
    have "v < (10 * acc + digit_val c + 1) * 10 ^ k"
      unfolding k_def by (rule "3.IH"(1) [OF True a])
    also have "\<dots> \<le> (10 * (acc + 1)) * 10 ^ k"
      using digit_val_le [OF True] by (intro mult_le_mono1) simp
    also have "\<dots> = (acc + 1) * 10 ^ Suc k" by (simp add: algebra_simps)
    finally show ?thesis unfolding fl .
  next
    case False
    with "3.prems" have u: "c = CHR ''_'' \<and> is_digit d"
      by (simp split: if_splits)
    with "3.prems" False have a: "after_digit (10 * acc + digit_val d) ds = Some v"
      by simp
    define k where "k = length (filter is_digit ds)"
    have fl: "length (filter is_digit (c # d # ds)) = Suc k"
      using False u by (simp add: k_def)
    have "v < (10 * acc + digit_val d + 1) * 10 ^ k"
      unfolding k_def by (rule "3.IH"(2) [OF False u a])
    also have "\<dots> \<le> (10 * (acc + 1)) * 10 ^ k"
      using digit_val_le [of d] u by (intro mult_le_mono1) simp
    also have "\<dots> = (acc + 1) * 10 ^ Suc k" by (simp add: algebra_simps)
    finally show ?thesis unfolding fl .
  qed
qed

lemma py_digits_bound:
  assumes "py_digits s = Some v"
  shows "v < 10 ^ int_max_str_digits"
proof (cases s)
  case Nil
  with assms show ?thesis by (simp add: py_digits_def)
next
  case (Cons c cs)
  with assms have d: "is_digit c" and len: "length (filter is_digit s) \<le> int_max_str_digits"
    and a: "after_digit (digit_val c) cs = Some v"
    by (simp_all add: py_digits_def split: if_splits)
  from after_digit_bound [OF a] have "v < (digit_val c + 1) * 10 ^ length (filter is_digit cs)" .
  also have "\<dots> \<le> 10 * 10 ^ length (filter is_digit cs)"
    using digit_val_le [OF d] by (intro mult_le_mono1) simp
  also have "\<dots> = 10 ^ length (filter is_digit s)"
    using d by (simp add: Cons)
  also have "\<dots> \<le> 10 ^ int_max_str_digits"
    using len by (intro power_increasing) simp_all
  finally show ?thesis .
qed

lemma py_int_bound:
  assumes "py_int s = Some n"
  shows "nat \<bar>n\<bar> < 10 ^ int_max_str_digits"
  using assms
  by (auto simp: py_int_def split: list.splits if_splits dest!: py_digits_bound)

lemma dec_nat_length_bound:
  "n < 10 ^ k \<Longrightarrow> 0 < k \<Longrightarrow> length (dec_nat n) \<le> k"
proof (induction n arbitrary: k rule: dec_nat.induct)
  case (1 n)
  show ?case
  proof (cases "n < 10")
    case True
    with "1.prems" show ?thesis by (simp add: dec_nat.simps [of n])
  next
    case False
    from "1.prems" obtain j where k: "k = Suc j" by (cases k) auto
    with "1.prems" have d: "n div 10 < 10 ^ j" by (simp add: less_mult_imp_div_less mult.commute)
    have "0 < j"
    proof (rule ccontr)
      assume "\<not> 0 < j"
      with k "1.prems" False show False by simp
    qed
    with "1.IH" [OF False d] have "length (dec_nat (n div 10)) \<le> j" by simp
    with False k show ?thesis by (simp add: dec_nat.simps [of n])
  qed
qed

lemma py_format_int_small:
  assumes "nat \<bar>n\<bar> < 10 ^ int_max_str_digits"
  shows "\<exists>s. py_format_int w n = Inr s"
proof -
  have "0 < int_max_str_digits" by (simp add: int_max_str_digits_def)
  with assms have "length (dec_nat (nat \<bar>n\<bar>)) \<le> int_max_str_digits"
    by (rule dec_nat_length_bound)
  then show ?thesis by (simp add: py_format_int_def Let_def)
qed

lemma format_timecode_small:
  assumes "nat \<bar>h\<bar> < 10 ^ int_max_str_digits" "nat \<bar>m\<bar> < 10 ^ int_max_str_digits"
    "nat \<bar>s\<bar> < 10 ^ int_max_str_digits" "nat \<bar>f\<bar> < 10 ^ int_max_str_digits"
  shows "\<exists>out. format_timecode (h, m, s, f) = Inr out"
proof -
  obtain a where "py_format_int 2 h = Inr a"
    using py_format_int_small [OF assms(1), of 2] by blast
  moreover obtain b where "py_format_int 2 m = Inr b"
    using py_format_int_small [OF assms(2), of 2] by blast
  moreover obtain c where "py_format_int 2 s = Inr c"
    using py_format_int_small [OF assms(3), of 2] by blast
  moreover obtain d where "py_format_int 2 f = Inr d"
    using py_format_int_small [OF assms(4), of 2] by blast
  ultimately show ?thesis by (simp add: format_timecode_def)
qed

lemma parse_timecode_Inr:
  assumes "parse_timecode tc = Inr (h, m, s, f)"
  obtains a b c d where "py_int a = Some h" "py_int b = Some m" "py_int c = Some s" "py_int d = Some f"
  using assms
  by (auto simp: parse_timecode_def split: list.splits option.splits)

lemma format_parsed_timecode:
  assumes "parse_timecode tc = Inr t"
  shows "\<exists>out. format_timecode t = Inr out"
proof (cases t)
  case (fields h m s f)
  with assms obtain a b c d where "py_int a = Some h" "py_int b = Some m" "py_int c = Some s"
    "py_int d = Some f"
    by (auto elim: parse_timecode_Inr)
  then show ?thesis
    unfolding fields by (intro format_timecode_small py_int_bound)
qed

text \<open>The adjusted fields of a timecode within the invariant can be printed.\<close>

lemma ten_thousand_small: "(10024::nat) < 10 ^ int_max_str_digits"
proof -
  have "(10024::nat) < 10 ^ 5" by simp
  also have "\<dots> \<le> 10 ^ int_max_str_digits"
    by (intro power_increasing) (simp_all add: int_max_str_digits_def)
  finally show ?thesis .
qed

lemma format_carry_valid:
  assumes "valid_fields 25 t" and "0 \<le> d" and "d < 10000"
    and "hours_of t < 10 ^ int_max_str_digits - 1"
  shows "\<exists>out. format_timecode (carry t d) = Inr out"
proof (cases t)
  case (fields h m s f)
  with assms have b: "0 \<le> h" "h < 10 ^ int_max_str_digits - 1" "0 \<le> m" "m < 60" "0 \<le> s" "s < 60"
    "0 \<le> f" "f < 25"
    by (simp_all add: valid_fields_def hours_of_def)
  obtain h' m' s' f' where c: "carry (h, m, s, f) d = (h', m', s', f')"
    by (cases "carry (h, m, s, f) d") auto
  with b assms(2,3) have r: "0 \<le> h'" "h' \<le> h + 1" "0 \<le> m'" "m' \<le> 60" "0 \<le> s'" "s' \<le> 60"
    "0 \<le> f'" "f' < 10024"
    by (simp_all add: carry_def Let_def split: if_splits)
  have small: "nat \<bar>x\<bar> < 10 ^ int_max_str_digits" if "0 \<le> x" "x < 10024" for x :: int
  proof -
    from that have "nat \<bar>x\<bar> < 10024" by simp
    with ten_thousand_small show ?thesis by linarith
  qed
  from r b have "h' < 10 ^ int_max_str_digits" by linarith
  with r have "int (nat \<bar>h'\<bar>) < int (10 ^ int_max_str_digits)" by simp
  then have hh: "nat \<bar>h'\<bar> < 10 ^ int_max_str_digits" by (simp only: of_nat_less_iff)
  have mm: "nat \<bar>m'\<bar> < 10 ^ int_max_str_digits"
    by (rule small) (use r in linarith)+
  have ss: "nat \<bar>s'\<bar> < 10 ^ int_max_str_digits"
    by (rule small) (use r in linarith)+
  have ff: "nat \<bar>f'\<bar> < 10 ^ int_max_str_digits"
    by (rule small) (use r in linarith)+
  show ?thesis
    unfolding fields c by (rule format_timecode_small [OF hh mm ss ff])
qed

text \<open>
  Claim C6: whatever \<^verbatim>\<open>adjust_timecode\<close> returns for a timecode string that parses
  and any delta, it returns a string that parses, and the fields it parses to can be
  formatted and parse again to themselves. The fields are the adjusted fields, and the
  string is their formatted form, unless an adjusted field has more than 4300 digits, in
  which case the string is the input; for a timecode within the invariant, a delta from
  0 to 9999 and hours below \<open>10 ^ 4300 - 1\<close> they are the adjusted fields.
\<close>

theorem adjust_timecode_roundtrip:
  assumes "parse_timecode tc = Inr t"
  shows "\<exists>out x s. fst (adjust_timecode (Some tc) d) = Some out
           \<and> parse_timecode out = Inr x \<and> format_timecode x = Inr s \<and> parse_timecode s = Inr x
           \<and> (\<forall>r. format_timecode (carry t d) = Inr r \<longrightarrow> out = r \<and> x = carry t d)
           \<and> (\<forall>e. format_timecode (carry t d) = Inl e \<longrightarrow> out = tc \<and> x = t)
           \<and> (valid_fields 25 t \<and> 0 \<le> d \<and> d < 10000
                \<and> hours_of t < 10 ^ int_max_str_digits - 1 \<longrightarrow> x = carry t d)"
proof (cases "format_timecode (carry t d)")
  case (Inr r)
  have p: "parse_timecode r = Inr (carry t d)" by (rule parse_format_timecode [OF Inr])
  from adjust_timecode_formatted [OF assms Inr] have f: "fst (adjust_timecode (Some tc) d) = Some r"
    by simp
  show ?thesis
    by (rule exI [of _ r], rule exI [of _ "carry t d"], rule exI [of _ r]) (simp add: f p Inr)
next
  case (Inl e)
  obtain s where s: "format_timecode t = Inr s"
    using format_parsed_timecode [OF assms] by blast
  have p: "parse_timecode s = Inr t" by (rule parse_format_timecode [OF s])
  have nv: "\<not> (valid_fields 25 t \<and> 0 \<le> d \<and> d < 10000 \<and> hours_of t < 10 ^ int_max_str_digits - 1)"
    using format_carry_valid [of t d] Inl by auto
  from adjust_timecode_not_formatted [OF assms Inl]
  have f: "fst (adjust_timecode (Some tc) d) = Some tc" by simp
  show ?thesis
    by (rule exI [of _ tc], rule exI [of _ t], rule exI [of _ s]) (simp add: f assms s p Inl nv)
qed

lemma roundtrip_examples:
  "parse_timecode ''23:59:59:24'' = Inr (23, 59, 59, 24)"
  "fst (adjust_timecode (Some ''23:59:59:24'') 9999) = Some ''24:00:00:9998''"
  "parse_timecode ''24:00:00:9998'' = Inr (24, 0, 0, 9998)"
  by (simp_all add: tc_eval)

lemma small_hours: "h < 99 \<Longrightarrow> h < (10::int) ^ int_max_str_digits - 1"
proof -
  have "(10::int) ^ 2 \<le> 10 ^ int_max_str_digits"
    by (intro power_increasing) (simp_all add: int_max_str_digits_def)
  then show "h < 99 \<Longrightarrow> h < (10::int) ^ int_max_str_digits - 1" by simp
qed

theorem adjust_timecode_roundtrip_witness:
  "parse_timecode ''23:59:59:24'' = Inr (23, 59, 59, 24)
   \<and> valid_fields 25 (23, 59, 59, 24) \<and> (0::int) \<le> 9999 \<and> (9999::int) < 10000
   \<and> hours_of (23, 59, 59, 24) < 10 ^ int_max_str_digits - 1
   \<and> fst (adjust_timecode (Some ''23:59:59:24'') 9999) = Some ''24:00:00:9998''
   \<and> parse_timecode ''24:00:00:9998'' = Inr (carry (23, 59, 59, 24) 9999)
   \<and> (\<exists>s. format_timecode (carry (23, 59, 59, 24) 9999) = Inr s
          \<and> parse_timecode s = Inr (carry (23, 59, 59, 24) 9999))"
proof -
  from adjust_timecode_roundtrip [OF roundtrip_examples(1), of 9999]
  obtain out x s where o: "fst (adjust_timecode (Some ''23:59:59:24'') 9999) = Some out"
    and p: "parse_timecode out = Inr x"
    and f: "format_timecode x = Inr s" and ps: "parse_timecode s = Inr x"
    and v: "valid_fields 25 (23, 59, 59, 24) \<and> (0::int) \<le> 9999 \<and> (9999::int) < 10000
              \<and> hours_of (23, 59, 59, 24) < 10 ^ int_max_str_digits - 1 \<longrightarrow>
            x = carry (23, 59, 59, 24) 9999"
    by (elim exE conjE) (rule that)
  have h: "valid_fields 25 (23, 59, 59, 24)" "(0::int) \<le> 9999" "(9999::int) < 10000"
    "hours_of (23, 59, 59, 24) < 10 ^ int_max_str_digits - 1"
    by (simp_all add: valid_fields_def hours_of_def small_hours)
  with v have x: "x = carry (23, 59, 59, 24) 9999" by (elim impE) (intro conjI)
  from o roundtrip_examples(2) have out: "out = ''24:00:00:9998''" by simp
  from p out x have p': "parse_timecode ''24:00:00:9998'' = Inr (carry (23, 59, 59, 24) 9999)"
    by simp
  from f ps x have e: "\<exists>s. format_timecode (carry (23, 59, 59, 24) 9999) = Inr s
          \<and> parse_timecode s = Inr (carry (23, 59, 59, 24) 9999)"
    by blast
  from roundtrip_examples(1) h roundtrip_examples(2) p' e show ?thesis by (intro conjI)
qed

section \<open>Properties of the EDL serializer\<close>

lemma id_0001: "py_format_int 4 1 = Inr ''0001''"
  by (simp add: tc_eval)

text \<open>
  Claim C8: called with an empty list of clips, \<^verbatim>\<open>generate_edl\<close> returns normally,
  whatever the path (also one that cannot be opened), with one warning added to the log
  and the files as they were: nothing is opened or written.
\<close>

theorem generate_edl_empty:
  "generate_edl str_of [] file_path compensation_frames w =
     Inr ([], w\<lparr>logs := logs w @ [LogWarning ''No cuts detected, no data to save in the EDL.'']\<rparr>)
   \<and> files (w\<lparr>logs := logs w @ [LogWarning ''No cuts detected, no data to save in the EDL.'']\<rparr>)
       = files w"
  by (simp add: generate_edl_def)

text \<open>
  Claim C5: for the single clip with source \<^verbatim>\<open>Input1\<close>, start \<^verbatim>\<open>00:00:00:00\<close> and
  end \<^verbatim>\<open>00:00:05:00\<close>, with compensation 0 and a path that can be opened, the file
  holds exactly the two header lines, the record line with the identifier \<^verbatim>\<open>0001\<close>
  and both timecode pairs, and the line naming the source.
\<close>

theorem generate_edl_single_clip:
  assumes "can_open w file_path" and "str_of s = ''Input1''"
  shows "generate_edl str_of
           [\<lparr>clip_start = Some ''00:00:00:00'', clip_end = Some ''00:00:05:00'', clip_src = s\<rparr>]
           file_path 0 w =
         Inr ([\<lparr>clip_start = Some ''00:00:00:00'', clip_end = Some ''00:00:05:00'', clip_src = s\<rparr>],
              w\<lparr>files := (files w)(file_path \<mapsto>
                    ''TITLE: ATEM Program Output'' @ nl @
                    ''FCM: NON-DROP FRAME'' @ nl @
                    ''0001  AX    V     C   00:00:00:00 00:00:05:00 00:00:00:00 00:00:05:00'' @ nl @
                    ''* FROM CLIP NAME: Input1'' @ nl),
                logs := logs w @ [LogInfo (''EDL file successfully generated: '' @ file_path)]\<rparr>)"
  using assms
  by (simp add: generate_edl_def clip_lines_def id_0001 py_str_def)

theorem generate_edl_single_clip_witness:
  "can_open w0 ''out.edl'' \<and>
   (case generate_edl (\<lambda>s. s)
           [\<lparr>clip_start = Some ''00:00:00:00'', clip_end = Some ''00:00:05:00'', clip_src = ''Input1''\<rparr>]
           ''out.edl'' 0 w0 of
      Inl e \<Rightarrow> False
    | Inr (cs, w) \<Rightarrow> files w ''out.edl'' = Some (
                    ''TITLE: ATEM Program Output'' @ nl @
                    ''FCM: NON-DROP FRAME'' @ nl @
                    ''0001  AX    V     C   00:00:00:00 00:00:05:00 00:00:00:00 00:00:05:00'' @ nl @
                    ''* FROM CLIP NAME: Input1'' @ nl))"
proof -
  have a: "can_open w0 ''out.edl''" by (simp add: w0_def)
  have b: "(\<lambda>s::string. s) ''Input1'' = ''Input1''" by simp
  show ?thesis
    using generate_edl_single_clip [of w0 "''out.edl''" "\<lambda>s. s" "''Input1''", OF a b] a by simp
qed

subsection \<open>What the loop writes\<close>



















section \<open>Properties of the monitor loop\<close>

lemma close_clip_fields:
  "last_program_input (close_clip str_of tc st) = last_program_input st"
  "last_timecode (close_clip str_of tc st) = last_timecode st"
  "timecode (close_clip str_of tc st) = timecode st"
  "monitor_logs (close_clip str_of tc st) = monitor_logs st"
  by (simp_all add: close_clip_def split: option.splits)

lemma close_clip_clips:
  "clips (close_clip str_of tc st) =
     (case (last_program_input st, last_timecode st) of
        (Some p, Some lt) \<Rightarrow>
          if lt \<noteq> [] then clips st @ [\<lparr>clip_start = Some lt, clip_end = tc, clip_src = p\<rparr>]
          else clips st
      | _ \<Rightarrow> clips st)"
  by (simp add: close_clip_def split: option.splits)

lemma close_clip_events:
  "events (close_clip str_of tc st) =
     (case (last_program_input st, last_timecode st) of
        (Some p, Some lt) \<Rightarrow>
          if lt \<noteq> [] then events st @ [Update_log (str_of p) lt tc] else events st
      | _ \<Rightarrow> events st)"
  by (simp add: close_clip_def split: option.splits)

text \<open>What one round does to each variable of the loop.\<close>

lemma iteration_clips:
  "clips (iteration str_of (Sampled x tc) st) =
     (if Some x \<noteq> last_program_input st
      then (case (last_program_input st, last_timecode st) of
              (Some p, Some lt) \<Rightarrow>
                if lt \<noteq> [] then clips st @ [\<lparr>clip_start = Some lt, clip_end = tc, clip_src = p\<rparr>]
                else clips st
            | _ \<Rightarrow> clips st)
      else clips st)"
  by (simp add: iteration_def Let_def close_clip_clips split: option.splits)

lemma iteration_pending:
  "last_program_input (iteration str_of (Sampled x tc) st) = Some x"
  "last_timecode (iteration str_of (Sampled x tc) st) =
     (if Some x \<noteq> last_program_input st then tc else last_timecode st)"
  "timecode (iteration str_of (Sampled x tc) st) = tc"
  by (auto simp add: iteration_def Let_def close_clip_fields split: option.splits)

lemma iteration_events:
  "events (iteration str_of (Sampled x tc) st) =
     events st @ [Update_input (str_of x)] @
     (case tc of Some v \<Rightarrow> if v \<noteq> [] then [Update_timecode v] else [] | None \<Rightarrow> []) @
     (if Some x \<noteq> last_program_input st
      then (case (last_program_input st, last_timecode st) of
              (Some p, Some lt) \<Rightarrow> if lt \<noteq> [] then [Update_log (str_of p) lt tc] else []
            | _ \<Rightarrow> [])
      else [])"
  by (simp add: iteration_def Let_def close_clip_events split: option.splits)

lemma iteration_read_failed:
  "clips (iteration str_of ReadFailed st) = clips st"
  "events (iteration str_of ReadFailed st) = events st"
  "last_program_input (iteration str_of ReadFailed st) = last_program_input st"
  "last_timecode (iteration str_of ReadFailed st) = last_timecode st"
  "timecode (iteration str_of ReadFailed st) = timecode st"
  by (simp_all add: iteration_def)

lemma finish_clips:
  "clips (finish st) =
     (case (last_program_input st, last_timecode st) of
        (Some p, Some lt) \<Rightarrow>
          if lt \<noteq> []
          then clips st @ [\<lparr>clip_start = Some lt, clip_end = timecode st, clip_src = p\<rparr>]
          else clips st
      | _ \<Rightarrow> clips st)"
  by (simp add: finish_def split: option.splits)


lemma edge_rule:
  assumes "last_program_input st = Some p" and "x \<noteq> p"
    and "last_timecode st = Some lt" and "lt \<noteq> []"
  shows "clips (iteration str_of (Sampled x tc) st) =
           clips st @ [\<lparr>clip_start = Some lt, clip_end = tc, clip_src = p\<rparr>]"
    and "last_program_input (iteration str_of (Sampled x tc) st) = Some x"
    and "last_timecode (iteration str_of (Sampled x tc) st) = tc"
  using assms by (simp_all add: iteration_clips iteration_pending)



lemma st_a_fields:
  "last_program_input st_a = Some ''A''" "last_timecode st_a = Some ''00:00:00:00''"
  "clips st_a = []" "timecode st_a = Some ''00:00:00:00''"
  by (simp_all add: st_a_def iteration_pending iteration_clips init_def)


subsection \<open>When a clip is appended\<close>

lemma iteration_keeps_pending:
  assumes "last_program_input st = Some a" and "smp = ReadFailed \<or> (\<exists>tc. smp = Sampled a tc)"
  shows "last_program_input (iteration str_of smp st) = Some a
       \<and> last_timecode (iteration str_of smp st) = last_timecode st
       \<and> clips (iteration str_of smp st) = clips st"
  using assms by (auto simp: iteration_read_failed iteration_pending iteration_clips)

lemma run_loop_keeps_pending:
  assumes "last_program_input st = Some a"
    and "\<forall>smp \<in> set samples. smp = ReadFailed \<or> (\<exists>tc. smp = Sampled a tc)"
  shows "last_program_input (run_loop str_of samples st) = Some a
       \<and> last_timecode (run_loop str_of samples st) = last_timecode st
       \<and> clips (run_loop str_of samples st) = clips st"
  using assms
proof (induction samples arbitrary: st)
  case Nil
  then show ?case by (simp add: run_loop_def)
next
  case (Cons smp samples)
  from Cons.prems have k: "last_program_input (iteration str_of smp st) = Some a
       \<and> last_timecode (iteration str_of smp st) = last_timecode st
       \<and> clips (iteration str_of smp st) = clips st"
    by (intro iteration_keeps_pending) simp_all
  from Cons.prems have "\<forall>smp \<in> set samples. smp = ReadFailed \<or> (\<exists>tc. smp = Sampled a tc)"
    by simp
  with k Cons.IH [of "iteration str_of smp st"] show ?case
    by (simp add: run_loop_def)
qed

lemma clip_appended_only:
  assumes "clips (iteration str_of smp st) \<noteq> clips st"
  shows "\<exists>x tc p lt. smp = Sampled x tc \<and> Some x \<noteq> last_program_input st
           \<and> last_program_input st = Some p \<and> last_timecode st = Some lt
           \<and> clips (iteration str_of smp st) =
               clips st @ [\<lparr>clip_start = Some lt, clip_end = tc, clip_src = p\<rparr>]"
proof (cases smp)
  case ReadFailed
  with assms show ?thesis by (simp add: iteration_read_failed)
next
  case (Sampled x tc)
  with assms show ?thesis
    by (auto simp: iteration_clips split: if_splits option.splits)
qed

lemma none_start_dropped:
  assumes "Some a \<noteq> last_program_input st"
    and "\<forall>smp \<in> set mid. smp = ReadFailed \<or> (\<exists>tc. smp = Sampled a tc)"
  shows "clips (iteration str_of (Sampled b tc)
             (run_loop str_of mid (iteration str_of (Sampled a None) st))) =
         clips (iteration str_of (Sampled a None) st)"
proof -
  let ?s = "iteration str_of (Sampled a None) st"
  from assms(1) have "last_program_input ?s = Some a" "last_timecode ?s = None"
    by (simp_all add: iteration_pending)
  with run_loop_keeps_pending [of ?s a mid str_of] assms(2)
  have "last_timecode (run_loop str_of mid ?s) = None"
       "clips (run_loop str_of mid ?s) = clips ?s"
    by simp_all
  then show ?thesis by (simp add: iteration_clips split: option.splits)
qed

text \<open>
  Claim C10: a round appends a clip only if it sees the input change, an input has been
  seen before and the pending timecode is not \<^verbatim>\<open>None\<close>, and then it appends exactly
  one clip. So when the round in which an input \<open>a\<close> became active got \<^verbatim>\<open>None\<close>
  from the deck, the next change of input (after any rounds that still see \<open>a\<close> or
  fail to read the switcher) appends no clip, and neither does the stop; and a round
  that closes a clip while its own deck query returned \<^verbatim>\<open>None\<close> appends the clip with
  the end \<^verbatim>\<open>None\<close>.
\<close>

theorem iteration_clip_guard:
  "(clips (iteration str_of smp st) \<noteq> clips st \<longrightarrow>
      (\<exists>x tc p lt. smp = Sampled x tc \<and> Some x \<noteq> last_program_input st
           \<and> last_program_input st = Some p \<and> last_timecode st = Some lt
           \<and> clips (iteration str_of smp st) =
               clips st @ [\<lparr>clip_start = Some lt, clip_end = tc, clip_src = p\<rparr>]))
   \<and> (Some a \<noteq> last_program_input st
        \<and> (\<forall>smp \<in> set mid. smp = ReadFailed \<or> (\<exists>tc. smp = Sampled a tc)) \<longrightarrow>
      clips (iteration str_of (Sampled b tc')
             (run_loop str_of mid (iteration str_of (Sampled a None) st))) =
      clips (iteration str_of (Sampled a None) st))
   \<and> (last_program_input st = Some p \<and> last_timecode st = Some lt \<and> lt \<noteq> [] \<and> x \<noteq> p \<longrightarrow>
      clips (iteration str_of (Sampled x None) st) =
        clips st @ [\<lparr>clip_start = Some lt, clip_end = None, clip_src = p\<rparr>])
   \<and> (last_timecode st = None \<longrightarrow> clips (finish st) = clips st)"
proof (intro conjI impI)
  assume "clips (iteration str_of smp st) \<noteq> clips st"
  then show "\<exists>x tc p lt. smp = Sampled x tc \<and> Some x \<noteq> last_program_input st
           \<and> last_program_input st = Some p \<and> last_timecode st = Some lt
           \<and> clips (iteration str_of smp st) =
               clips st @ [\<lparr>clip_start = Some lt, clip_end = tc, clip_src = p\<rparr>]"
    by (rule clip_appended_only)
next
  assume "Some a \<noteq> last_program_input st
        \<and> (\<forall>smp \<in> set mid. smp = ReadFailed \<or> (\<exists>tc. smp = Sampled a tc))"
  then show "clips (iteration str_of (Sampled b tc')
             (run_loop str_of mid (iteration str_of (Sampled a None) st))) =
      clips (iteration str_of (Sampled a None) st)"
    by (intro none_start_dropped) simp_all
next
  assume "last_program_input st = Some p \<and> last_timecode st = Some lt \<and> lt \<noteq> [] \<and> x \<noteq> p"
  then show "clips (iteration str_of (Sampled x None) st) =
        clips st @ [\<lparr>clip_start = Some lt, clip_end = None, clip_src = p\<rparr>]"
    by (simp add: edge_rule)
next
  assume "last_timecode st = None"
  then show "clips (finish st) = clips st"
    by (simp add: finish_clips split: option.splits)
qed

lemma st_a_next:
  "clips (iteration (\<lambda>s. s) (Sampled ''B'' (Some ''00:00:02:00'')) st_a) \<noteq> clips st_a"
  by (simp add: iteration_clips st_a_fields)

theorem iteration_clip_guard_witness:
  "clips (iteration (\<lambda>s. s) (Sampled ''B'' (Some ''00:00:02:00'')) st_a) \<noteq> clips st_a
   \<and> (\<exists>x tc p lt. Sampled ''B'' (Some ''00:00:02:00'') = Sampled x tc
         \<and> Some x \<noteq> last_program_input st_a
         \<and> last_program_input st_a = Some p \<and> last_timecode st_a = Some lt
         \<and> clips (iteration (\<lambda>s. s) (Sampled ''B'' (Some ''00:00:02:00'')) st_a) =
             clips st_a @ [\<lparr>clip_start = Some lt, clip_end = tc, clip_src = p\<rparr>])
   \<and> clips (iteration (\<lambda>s. s) (Sampled ''C'' (Some ''00:00:04:00''))
        (run_loop (\<lambda>s. s) [Sampled ''B'' (Some ''00:00:03:00''), ReadFailed]
           (iteration (\<lambda>s. s) (Sampled ''B'' None) st_a))) =
      clips (iteration (\<lambda>s. s) (Sampled ''B'' None) st_a)
   \<and> clips (iteration (\<lambda>s. s) (Sampled ''B'' None) st_a) =
      [\<lparr>clip_start = Some ''00:00:00:00'', clip_end = None, clip_src = ''A''\<rparr>]
   \<and> clips (finish (init :: string monitor)) = clips (init :: string monitor)"
proof -
  note t1 = iteration_clip_guard [of "\<lambda>s. s" "Sampled ''B'' (Some ''00:00:02:00'')" st_a
      "''B''" "[Sampled ''B'' (Some ''00:00:03:00''), ReadFailed]" "''C''" "Some ''00:00:04:00''"
      "''A''" "''00:00:00:00''" "''B''"]
  note t2 = iteration_clip_guard [of "\<lambda>s. s" ReadFailed "init :: string monitor"
      "''B''" "[]" "''C''" None "''A''" "''00:00:00:00''" "''B''"]
  have h2: "Some ''B'' \<noteq> last_program_input st_a
        \<and> (\<forall>smp \<in> set [Sampled ''B'' (Some ''00:00:03:00''), ReadFailed].
              smp = ReadFailed \<or> (\<exists>tc. smp = Sampled ''B'' tc))"
    by (simp add: st_a_fields)
  have h3: "last_program_input st_a = Some ''A'' \<and> last_timecode st_a = Some ''00:00:00:00''
        \<and> ''00:00:00:00'' \<noteq> [] \<and> ''B'' \<noteq> ''A''"
    by (simp add: st_a_fields)
  have h4: "last_timecode (init :: string monitor) = None"
    by (simp add: init_def)
  have c1: "\<exists>x tc p lt. Sampled ''B'' (Some ''00:00:02:00'') = Sampled x tc
         \<and> Some x \<noteq> last_program_input st_a
         \<and> last_program_input st_a = Some p \<and> last_timecode st_a = Some lt
         \<and> clips (iteration (\<lambda>s. s) (Sampled ''B'' (Some ''00:00:02:00'')) st_a) =
             clips st_a @ [\<lparr>clip_start = Some lt, clip_end = tc, clip_src = p\<rparr>]"
    by (rule t1 [THEN conjunct1, THEN mp, OF st_a_next])
  have c2: "clips (iteration (\<lambda>s. s) (Sampled ''C'' (Some ''00:00:04:00''))
        (run_loop (\<lambda>s. s) [Sampled ''B'' (Some ''00:00:03:00''), ReadFailed]
           (iteration (\<lambda>s. s) (Sampled ''B'' None) st_a))) =
      clips (iteration (\<lambda>s. s) (Sampled ''B'' None) st_a)"
    by (rule t1 [THEN conjunct2, THEN conjunct1, THEN mp, OF h2])
  have c3: "clips (iteration (\<lambda>s. s) (Sampled ''B'' None) st_a) =
      clips st_a @ [\<lparr>clip_start = Some ''00:00:00:00'', clip_end = None, clip_src = ''A''\<rparr>]"
    by (rule t1 [THEN conjunct2, THEN conjunct2, THEN conjunct1, THEN mp, OF h3])
  have c4: "clips (finish (init :: string monitor)) = clips (init :: string monitor)"
    by (rule t2 [THEN conjunct2, THEN conjunct2, THEN conjunct2, THEN mp, OF h4])
  from st_a_next c1 c2 c3 c4 show ?thesis by (simp add: st_a_fields)
qed

subsection \<open>The events of one round\<close>

text \<open>
  Claim C9, as the code has it: a round whose read of the program input succeeds
  publishes the input event; it publishes the timecode event exactly when the deck query
  returned a non-empty string; it publishes the clip event only when the input changed
  (and an input with a non-empty pending timecode was there to close), after the other
  two. A round whose read of the program input raises publishes nothing.
\<close>

theorem iteration_events_published:
  "events (iteration str_of (Sampled x tc) st) =
     events st @ [Update_input (str_of x)] @
     (case tc of Some v \<Rightarrow> if v \<noteq> [] then [Update_timecode v] else [] | None \<Rightarrow> []) @
     (if Some x \<noteq> last_program_input st
      then (case (last_program_input st, last_timecode st) of
              (Some p, Some lt) \<Rightarrow> if lt \<noteq> [] then [Update_log (str_of p) lt tc] else []
            | _ \<Rightarrow> [])
      else [])
   \<and> events (iteration str_of ReadFailed st) = events st"
  by (simp add: iteration_events iteration_read_failed)

text \<open>
  Claim C9 as stated fails in a round whose deck query returns \<^verbatim>\<open>None\<close>: the input
  event is the only event of the round, no timecode event is published.
\<close>

theorem no_timecode_event_counterexample:
  "events (iteration (\<lambda>s. s) (Sampled ''A'' None) init) = [Update_input ''A'']"
  by (simp add: iteration_events init_def)

section \<open>Properties of the deck client\<close>



lemma startswith_drop: "startswith s p \<Longrightarrow> s = p @ drop (length p) s"
  by (induction s p rule: startswith.induct) simp_all




















end
